theory Spec2Isabelle
  imports Complex_Main "HOL-Library.AList" "HOL-Library.Sublist"
begin

section \<open>Python values\<close>

text \<open>
  The values \<^verbatim>\<open>json.loads\<close> can return. A Python \<^verbatim>\<open>dict\<close> keeps its keys in
  insertion order, so an object is an association list (looked up with \<open>map_of\<close>; the
  parser never yields a key twice). A finite float is kept by its exact value, next to
  the four values that are no number or differ from a number only in sign.
\<close>

datatype pyfloat = Finite rat | NegZero | PosInf | NegInf | NaN

datatype json =
    JNull
  | JBool bool
  | JInt int
  | JFloat pyfloat
  | JStr string
  | JList "json list"
  | JObj "(string \<times> json) list"

datatype exn =
    TypeError
  | KeyError
  | IndexError
  | AttributeError
  | JSONDecodeError
  | APIError string

type_synonym pydict = "(string \<times> json) list"

text \<open>\<^verbatim>\<open>key in obj\<close> for a string key: membership of a key in a dict, of an element in a
  list, of a substring in a string; any other operand is not iterable.\<close>

fun py_contains :: "string \<Rightarrow> json \<Rightarrow> exn + bool" where
  "py_contains k (JObj kvs) = Inr (k \<in> set (map fst kvs))"
| "py_contains k (JList xs) = Inr (JStr k \<in> set xs)"
| "py_contains k (JStr s) = Inr (sublist k s)"
| "py_contains k JNull = Inl TypeError"
| "py_contains k (JBool b) = Inl TypeError"
| "py_contains k (JInt n) = Inl TypeError"
| "py_contains k (JFloat f) = Inl TypeError"

text \<open>\<^verbatim>\<open>obj[key]\<close> for a string key: only a dict accepts it.\<close>

fun py_getitem :: "json \<Rightarrow> string \<Rightarrow> exn + json" where
  "py_getitem (JObj kvs) k = (case map_of kvs k of None \<Rightarrow> Inl KeyError | Some v \<Rightarrow> Inr v)"
| "py_getitem JNull k = Inl TypeError"
| "py_getitem (JBool b) k = Inl TypeError"
| "py_getitem (JInt n) k = Inl TypeError"
| "py_getitem (JFloat f) k = Inl TypeError"
| "py_getitem (JStr s) k = Inl TypeError"
| "py_getitem (JList xs) k = Inl TypeError"

text \<open>The elements an iteration over a value yields: a list's items, a string's
  characters (each a string of length one), a dict's keys.\<close>

fun py_iter :: "json \<Rightarrow> exn + json list" where
  "py_iter (JList xs) = Inr xs"
| "py_iter (JStr s) = Inr (map (\<lambda>c. JStr [c]) s)"
| "py_iter (JObj kvs) = Inr (map (\<lambda>kv. JStr (fst kv)) kvs)"
| "py_iter JNull = Inl TypeError"
| "py_iter (JBool b) = Inl TypeError"
| "py_iter (JInt n) = Inl TypeError"
| "py_iter (JFloat f) = Inl TypeError"

text \<open>\<^verbatim>\<open>range(start, stop, step)\<close> for a positive step, and the slice \<^verbatim>\<open>xs[i:j]\<close>.\<close>

function py_range :: "nat \<Rightarrow> nat \<Rightarrow> nat \<Rightarrow> nat list" where
  "py_range start stop step =
     (if 0 < step \<and> start < stop then start # py_range (start + step) stop step else [])"
  by pat_completeness auto
termination
  by (relation "measure (\<lambda>(start, stop, step). stop - start)") auto

definition py_slice :: "'a list \<Rightarrow> nat \<Rightarrow> nat \<Rightarrow> 'a list" where
  "py_slice xs i j = take (j - i) (drop i xs)"

section \<open>The batched exam generator\<close>

definition prompt_template :: string where
  \<open>prompt_template =
     ''\<newline>'' @
     ''    You are an expert professor designed to help students prepare for exams.\<newline>'' @
     ''    Analyze the provided images, which represent pages from a study material PDF.\<newline>'' @
     ''    \<newline>'' @
     ''    CRITICAL INSTRUCTION:\<newline>'' @
     ''    1. IGNORE administrative pages like Syllabus, Attendance Policy, Course Logistics, Table of Contents, or Introduction/Welcome pages.\<newline>'' @
     ''    2. FOCUS ONLY on technical subject matter, core concepts, definitions, formulas, and DIAGRAMS.\<newline>'' @
     ''    3. If the images only contain administrative info, return an empty JSON structure for that batch.\<newline>'' @
     ''    4. Pay special attention to DIAGRAMS, CHARTS, or FIGURES.\<newline>'' @
     ''\<newline>'' @
     ''    Task: Generate questions based on the SUBJECT MATTER found in these pages.\<newline>'' @
     ''    Return output strictly as a JSON object:\<newline>'' @
     ''    {{\<newline>'' @
     ''      "mcq": [{{ "question": "...", "options": ["a", "b", "c", "d"], "answer": "..." }}],\<newline>'' @
     ''      "short_answer": [{{ "question": "...", "answer": "..." }}],\<newline>'' @
     ''      "essay": [{{ "question": "...", "key_points_to_cover": "..." }}]\<newline>'' @
     ''    }}\<newline>'' @
     ''    ''\<close>

definition model_name :: string where
  "model_name = ''meta-llama/llama-4-scout-17b-16e-instruct''"

definition batch_size :: nat where
  "batch_size = 5"

datatype part = TextPart string | ImageUrlPart string

text \<open>The keyword arguments of \<^verbatim>\<open>client.chat.completions.create\<close>; the single message has
  role \<^verbatim>\<open>user\<close>. The float constant \<^verbatim>\<open>temperature=0.1\<close> is passed through unchanged and
  is not kept.\<close>

record request =
  model :: string
  content :: "part list"
  response_format :: string
  max_tokens :: nat

text \<open>The two messages of the status callback, kept as the values their f-strings
  interpolate: batch number, number of batches, first and last page; batch number and
  the exception.\<close>

datatype status_msg =
    Processing nat nat nat nat
  | BatchError nat exn

text \<open>What the run did to the outside, in order: a message handed to the status
  callback, or a request sent to the model together with what the first two statements
  of the \<^verbatim>\<open>try\<close> block made of it (the parsed response or the exception).\<close>

datatype event =
    Status status_msg
  | ModelCall request "exn + json"

text \<open>
  The hosted model and the caller's callback act on an outside world \<open>'w\<close>. A completion
  is the list of its choices' message contents (a content can be \<^verbatim>\<open>None\<close>). The callback
  is the caller's code and is taken not to raise.
\<close>

type_synonym 'w chat_create = "string \<Rightarrow> 'w \<Rightarrow> request \<Rightarrow> (exn + string option list) \<times> 'w"
type_synonym json_loads = "string \<Rightarrow> exn + json"
type_synonym 'w callback = "('w \<Rightarrow> status_msg \<Rightarrow> 'w) option"

record 'w gen_state =
  all_results :: pydict
  world :: 'w
  events :: "event list"

definition notify :: "'w callback \<Rightarrow> status_msg \<Rightarrow> 'w gen_state \<Rightarrow> 'w gen_state" where
  "notify status_callback msg st =
     (case status_callback of
        None \<Rightarrow> st
      | Some f \<Rightarrow> st\<lparr>world := f (world st) msg, events := events st @ [Status msg]\<rparr>)"

definition build_content :: "string list \<Rightarrow> part list" where
  "build_content batch =
     TextPart prompt_template # map (\<lambda>img_b64. ImageUrlPart (''data:image/png;base64,'' @ img_b64)) batch"

definition make_request :: "part list \<Rightarrow> request" where
  "make_request c =
     \<lparr>model = model_name, content = c, response_format = ''json_object'', max_tokens = 2048\<rparr>"

text \<open>The call and \<^verbatim>\<open>json.loads(completion.choices[0].message.content)\<close>.\<close>

definition fetch_result ::
  "'w chat_create \<Rightarrow> json_loads \<Rightarrow> string \<Rightarrow> 'w \<Rightarrow> request \<Rightarrow> (exn + json) \<times> 'w" where
  "fetch_result create loads api_key w req =
     (case create api_key w req of
        (Inl e, w') \<Rightarrow> (Inl e, w')
      | (Inr choices, w') \<Rightarrow>
          (case choices of
             [] \<Rightarrow> (Inl IndexError, w')
           | c # _ \<Rightarrow> (case c of None \<Rightarrow> (Inl TypeError, w') | Some s \<Rightarrow> (loads s, w'))))"

text \<open>One line of the merge: \<^verbatim>\<open>if k in result: all_results[k].extend(result[k])\<close>. The
  list is extended in place, so the dict is returned also when the line raises.\<close>

definition merge_key :: "string \<Rightarrow> json \<Rightarrow> pydict \<Rightarrow> exn option \<times> pydict" where
  "merge_key k result d =
     (case py_contains k result of
        Inl e \<Rightarrow> (Some e, d)
      | Inr present \<Rightarrow>
          if \<not> present then (None, d)
          else
            (case map_of d k of
               None \<Rightarrow> (Some KeyError, d)
             | Some (JList ys) \<Rightarrow>
                 (case py_getitem result k of
                    Inl e \<Rightarrow> (Some e, d)
                  | Inr v \<Rightarrow>
                      (case py_iter v of
                         Inl e \<Rightarrow> (Some e, d)
                       | Inr xs \<Rightarrow> (None, AList.update k (JList (ys @ xs)) d)))
             | Some _ \<Rightarrow> (Some AttributeError, d)))"

definition merge_results :: "json \<Rightarrow> pydict \<Rightarrow> exn option \<times> pydict" where
  "merge_results result d =
     (case merge_key ''mcq'' result d of
        (Some e, d1) \<Rightarrow> (Some e, d1)
      | (None, d1) \<Rightarrow>
          (case merge_key ''short_answer'' result d1 of
             (Some e, d2) \<Rightarrow> (Some e, d2)
           | (None, d2) \<Rightarrow> merge_key ''essay'' result d2))"

text \<open>The body of the loop for the batch starting at index \<open>i\<close>.\<close>

definition process_batch ::
  "'w chat_create \<Rightarrow> json_loads \<Rightarrow> string list \<Rightarrow> string \<Rightarrow> 'w callback \<Rightarrow> nat \<Rightarrow> nat \<Rightarrow>
     'w gen_state \<Rightarrow> 'w gen_state" where
  "process_batch create loads base64_images api_key status_callback total_pages i st =
     (let batch = py_slice base64_images i (i + batch_size);
          current_batch_num = i div batch_size + 1;
          total_batches = (total_pages + batch_size - 1) div batch_size;
          st1 = notify status_callback
                  (Processing current_batch_num total_batches (i + 1)
                     (min (i + batch_size) total_pages)) st;
          req = make_request (build_content batch);
          (r, w') = fetch_result create loads api_key (world st1) req;
          st2 = st1\<lparr>world := w', events := events st1 @ [ModelCall req r]\<rparr>
      in case r of
           Inl e \<Rightarrow> notify status_callback (BatchError current_batch_num e) st2
         | Inr result \<Rightarrow>
             (case merge_results result (all_results st2) of
                (None, d) \<Rightarrow> st2\<lparr>all_results := d\<rparr>
              | (Some e, d) \<Rightarrow>
                  notify status_callback (BatchError current_batch_num e) (st2\<lparr>all_results := d\<rparr>)))"

definition initial_results :: pydict where
  "initial_results = [(''mcq'', JList []), (''short_answer'', JList []), (''essay'', JList [])]"

definition generate_exam_with_groq ::
  "'w chat_create \<Rightarrow> json_loads \<Rightarrow> string list \<Rightarrow> string \<Rightarrow> 'w callback \<Rightarrow> 'w \<Rightarrow> 'w gen_state" where
  "generate_exam_with_groq create loads base64_images api_key status_callback w =
     (let total_pages = length base64_images
      in fold (process_batch create loads base64_images api_key status_callback total_pages)
           (py_range 0 total_pages batch_size)
           \<lparr>all_results = initial_results, world = w, events = []\<rparr>)"


section \<open>Observations on a run\<close>




text \<open>What each request came to, in the order the requests were sent.\<close>

fun outcomes :: "event list \<Rightarrow> (exn + json) list" where
  "outcomes [] = []"
| "outcomes (Status m # evs) = outcomes evs"
| "outcomes (ModelCall r out # evs) = out # outcomes evs"

text \<open>The request for the batch that starts at index \<open>i\<close>, and the state in which it is
  sent: the one after the callback was told of the batch.\<close>

definition batch_request :: "string list \<Rightarrow> nat \<Rightarrow> request" where
  "batch_request base64_images i =
     make_request (build_content (py_slice base64_images i (i + batch_size)))"

definition announce :: "'w callback \<Rightarrow> nat \<Rightarrow> nat \<Rightarrow> 'w gen_state \<Rightarrow> 'w gen_state" where
  "announce status_callback total_pages i st =
     notify status_callback
       (Processing (i div batch_size + 1) ((total_pages + batch_size - 1) div batch_size) (i + 1)
          (min (i + batch_size) total_pages)) st"

text \<open>What one line of the merge reads from a response before it extends the list: the
  items to append, or the exception raised on the way.\<close>

definition line_outcome :: "string \<Rightarrow> json \<Rightarrow> exn + json list" where
  "line_outcome k result =
     (case py_contains k result of
        Inl e \<Rightarrow> Inl e
      | Inr present \<Rightarrow>
          if \<not> present then Inr []
          else (case py_getitem result k of Inl e \<Rightarrow> Inl e | Inr v \<Rightarrow> py_iter v))"

text \<open>The merge as the specification words it: a response contributes to a key the list it
  holds under that key, and nothing when it failed or has no list there; the merged list is
  the concatenation of the contributions in batch order.\<close>

definition spec_contribution :: "string \<Rightarrow> exn + json \<Rightarrow> json list" where
  "spec_contribution k out =
     (case out of
        Inl e \<Rightarrow> []
      | Inr result \<Rightarrow>
          (case result of
             JObj kvs \<Rightarrow> (case map_of kvs k of Some (JList xs) \<Rightarrow> xs | _ \<Rightarrow> [])
           | _ \<Rightarrow> []))"

definition spec_merged :: "string \<Rightarrow> event list \<Rightarrow> json list" where
  "spec_merged k evs = concat (map (spec_contribution k) (outcomes evs))"

text \<open>A response in which each of the three keys is absent or holds a list (a failed batch
  and a response that is no object have nothing under a key).\<close>

definition list_or_absent :: "(string \<times> json) list \<Rightarrow> string \<Rightarrow> bool" where
  "list_or_absent kvs k =
     (case map_of kvs k of None \<Rightarrow> True | Some (JList xs) \<Rightarrow> True | Some _ \<Rightarrow> False)"

definition lists_where_present :: "exn + json \<Rightarrow> bool" where
  "lists_where_present out =
     (case out of
        Inr (JObj kvs) \<Rightarrow>
          list_or_absent kvs ''mcq'' \<and> list_or_absent kvs ''short_answer'' \<and>
          list_or_absent kvs ''essay''
      | _ \<Rightarrow> True)"

text \<open>A dict of the shape of \<^verbatim>\<open>all_results\<close>.\<close>

definition shaped :: "json list \<Rightarrow> json list \<Rightarrow> json list \<Rightarrow> pydict" where
  "shaped a b c = [(''mcq'', JList a), (''short_answer'', JList b), (''essay'', JList c)]"

text \<open>What the three lines of the merge append for a response: a line that raises
  appends nothing and keeps the later lines from running.\<close>

definition added_mcq :: "json \<Rightarrow> json list" where
  "added_mcq result = (case line_outcome ''mcq'' result of Inl e \<Rightarrow> [] | Inr xs \<Rightarrow> xs)"

definition added_short :: "json \<Rightarrow> json list" where
  "added_short result =
     (case line_outcome ''mcq'' result of
        Inl e \<Rightarrow> []
      | Inr xs \<Rightarrow> (case line_outcome ''short_answer'' result of Inl e \<Rightarrow> [] | Inr ys \<Rightarrow> ys))"

definition added_essay :: "json \<Rightarrow> json list" where
  "added_essay result =
     (case line_outcome ''mcq'' result of
        Inl e \<Rightarrow> []
      | Inr xs \<Rightarrow>
          (case line_outcome ''short_answer'' result of
             Inl e \<Rightarrow> []
           | Inr ys \<Rightarrow> (case line_outcome ''essay'' result of Inl e \<Rightarrow> [] | Inr zs \<Rightarrow> zs)))"

text \<open>What the request of the batch at index \<open>i\<close> comes to when the loop reaches it in
  state \<open>st\<close>.\<close>

definition batch_outcome ::
  "'w chat_create \<Rightarrow> json_loads \<Rightarrow> string list \<Rightarrow> string \<Rightarrow> 'w callback \<Rightarrow> nat \<Rightarrow> nat \<Rightarrow>
     'w gen_state \<Rightarrow> exn + json" where
  "batch_outcome create loads imgs key cb n i st =
     fst (fetch_result create loads key (world (announce cb n i st)) (batch_request imgs i))"

text \<open>An item with a \<^verbatim>\<open>question\<close> field, and a response whose three lists hold only such
  items.\<close>

definition has_question :: "json \<Rightarrow> bool" where
  "has_question item = (case item of JObj kvs \<Rightarrow> ''question'' \<in> set (map fst kvs) | _ \<Rightarrow> False)"

definition questions_in_lists :: "exn + json \<Rightarrow> bool" where
  "questions_in_lists out =
     (lists_where_present out \<and>
      list_all has_question
        (spec_contribution ''mcq'' out @ spec_contribution ''short_answer'' out @
         spec_contribution ''essay'' out))"

text \<open>Example collaborators: a model that answers every request with the same text, one that
  is unavailable, and a parser that knows three texts. Their world counts the requests.\<close>

definition reply_create :: "string \<Rightarrow> nat chat_create" where
  "reply_create text api_key w req = (Inr [Some text], Suc w)"


definition example_loads :: json_loads where
  \<open>example_loads s =
     (if s = ''{"mcq": null, "essay": [{"question": "Q"}]}''
        then Inr (JObj [(''mcq'', JNull), (''essay'', JList [JObj [(''question'', JStr ''Q'')]])])
      else if s = ''{"mcq": [{}]}''
        then Inr (JObj [(''mcq'', JList [JObj []])])
      else if s = ''{"mcq": [{"question": "Q"}]}''
        then Inr (JObj [(''mcq'', JList [JObj [(''question'', JStr ''Q'')]])])
      else Inl JSONDecodeError)\<close>

text \<open>The loop invariant of the merge: the three lists are the concatenations of what the
  responses so far contributed.\<close>

definition merged_so_far :: "'w gen_state \<Rightarrow> bool" where
  "merged_so_far st =
     (all_results st =
        shaped (spec_merged ''mcq'' (events st)) (spec_merged ''short_answer'' (events st))
          (spec_merged ''essay'' (events st)))"

text \<open>The items of the list a dict holds under a key.\<close>

definition items_of :: "pydict \<Rightarrow> string \<Rightarrow> json list" where
  "items_of d k = (case map_of d k of Some (JList xs) \<Rightarrow> xs | _ \<Rightarrow> [])"

section \<open>Rendering pages and extracting text\<close>

type_synonym bytes = "char list"

text \<open>The operations of the PDF library that \<^verbatim>\<open>convert_pdf_to_images\<close> calls, on the library's
  own documents, pages and pixmaps.\<close>

record ('doc, 'page, 'pix) fitz =
  fitz_open :: "string \<Rightarrow> 'doc"
  page_count :: "'doc \<Rightarrow> nat"
  load_page :: "'doc \<Rightarrow> nat \<Rightarrow> 'page"
  get_pixmap :: "'page \<Rightarrow> 'pix"
  tobytes :: "'pix \<Rightarrow> string \<Rightarrow> bytes"

text \<open>The loop appends one image per page number; the base64 alphabet is ASCII, so decoding
  its bytes as UTF-8 gives the same characters.\<close>

definition convert_pdf_to_images ::
  "('doc, 'page, 'pix) fitz \<Rightarrow> (bytes \<Rightarrow> bytes) \<Rightarrow> string \<Rightarrow> string list" where
  "convert_pdf_to_images lib b64encode pdf_path =
     (let doc = fitz_open lib pdf_path
      in fold (\<lambda>page_num base64_images.
                 let page = load_page lib doc page_num;
                     pix = get_pixmap lib page;
                     img_data = tobytes lib pix ''png'';
                     base64_img = b64encode img_data
                 in base64_images @ [base64_img])
           (py_range 0 (page_count lib doc) 1) [])"

text \<open>The text extraction loop of the app: \<^verbatim>\<open>extract_text\<close> gives a string or \<^verbatim>\<open>None\<close>, and
  only a non-empty string is appended.\<close>

definition extract_document_text :: "('page \<Rightarrow> string option) \<Rightarrow> 'page list \<Rightarrow> string" where
  "extract_document_text extract_text pages =
     fold (\<lambda>page text.
             (case extract_text page of
                None \<Rightarrow> text
              | Some page_text \<Rightarrow> if page_text \<noteq> [] then text @ page_text else text))
       pages []"

section \<open>More of Python\<close>






section \<open>The PDF report\<close>

datatype style = TitleStyle | SectionStyle | QuestionStyle | OptionStyle

text \<open>The flowables of the story; a spacer by its width in points and its height in
  hundredths of an inch.\<close>

datatype flowable = Paragraph string style | Spacer nat nat | PageBreak











section \<open>The on-screen display\<close>



















section \<open>The two functions on a store of objects\<close>

text \<open>
  Python's lists and dicts are objects that the program reaches through references. To
  see which objects a function writes, the lists and dicts the two functions touch are
  put in a store: the objects in allocation order, an address being a position. A new
  object goes to the end. Strings and the items of a parsed response are values.
\<close>

datatype cell =
    StrList "string list"
  | PartList "part list"
  | JsonList "json list"
  | RefDict "(string \<times> nat) list"
  | JsonDict pydict
  | Story "flowable list"

type_synonym store = "cell list"

definition cell_at :: "store \<Rightarrow> nat \<Rightarrow> cell option" where
  "cell_at h a = (if a < length h then Some (h ! a) else None)"


















section \<open>Batching\<close>

declare py_range.simps [simp del]



lemma all_results_notify: "all_results (notify cb m st) = all_results st"
  by (simp add: notify_def split: option.splits)



lemma ceil_step:
  fixes d step :: nat
  assumes "0 < d" "0 < step"
  shows "(d + step - 1) div step = Suc ((d - step + step - 1) div step)"
proof -
  have eq: "d + step - 1 = (d - 1) + step" using assms by simp
  have L: "(d + step - 1) div step = Suc ((d - 1) div step)"
    by (subst eq) (simp add: assms)
  show ?thesis
  proof (cases "step \<le> d")
    case True
    then have "d - step + step - 1 = d - 1" by simp
    with L show ?thesis by simp
  next
    case False
    then have "(d - 1) div step = 0" "(d - step + step - 1) div step = 0"
      using assms by simp_all
    with L show ?thesis by simp
  qed
qed

lemma py_range_closed:
  "0 < step \<Longrightarrow> py_range start stop step =
     map (\<lambda>k. start + k * step) [0 ..< (stop - start + step - 1) div step]"
proof (induction start stop step rule: py_range.induct)
  case (1 start stop step)
  show ?case
  proof (cases "start < stop")
    case False
    with 1(2) show ?thesis by (simp add: py_range.simps)
  next
    case True
    have "stop - start - step = stop - (start + step)" by simp
    with ceil_step [of "stop - start" step] True 1(2)
    have D: "(stop - start + step - 1) div step = Suc ((stop - (start + step) + step - 1) div step)"
      by simp
    have "py_range start stop step = start # py_range (start + step) stop step"
      using True 1(2) by (subst py_range.simps) simp
    also have "\<dots> = start # map (\<lambda>k. start + step + k * step)
                        [0 ..< (stop - (start + step) + step - 1) div step]"
      using 1 True by simp
    also have "\<dots> = map (\<lambda>k. start + k * step) [0 ..< (stop - start + step - 1) div step]"
      unfolding D by (simp add: map_upt_Suc del: upt_Suc)
    finally show ?thesis .
  qed
qed








text \<open>
  Claim C8. On an empty image list the result holds three empty lists, and nothing
  happened on the way: no request was sent, the callback received no message, and the
  outside world is as it was.
\<close>

theorem generate_empty:
  "generate_exam_with_groq create loads [] key cb w =
     \<lparr>all_results = [(''mcq'', JList []), (''short_answer'', JList []), (''essay'', JList [])],
      world = w, events = []\<rparr>"
  by (simp add: generate_exam_with_groq_def py_range.simps initial_results_def)

section \<open>Merging\<close>

lemma outcomes_append: "outcomes (xs @ ys) = outcomes xs @ outcomes ys"
  by (induction xs rule: outcomes.induct) auto

lemma merge_key_line:
  "map_of d k = Some (JList ys) \<Longrightarrow>
   merge_key k result d =
     (case line_outcome k result of
        Inl e \<Rightarrow> (Some e, d)
      | Inr xs \<Rightarrow> (None, AList.update k (JList (ys @ xs)) d))"
  by (auto simp: merge_key_def line_outcome_def AList.update_triv split: sum.splits)

lemma merge_mcq:
  "merge_key ''mcq'' result (shaped a b c) =
     (case line_outcome ''mcq'' result of
        Inl e \<Rightarrow> (Some e, shaped a b c)
      | Inr xs \<Rightarrow> (None, shaped (a @ xs) b c))"
  by (simp add: merge_key_line [where ys = a] shaped_def split: sum.splits)

lemma merge_short:
  "merge_key ''short_answer'' result (shaped a b c) =
     (case line_outcome ''short_answer'' result of
        Inl e \<Rightarrow> (Some e, shaped a b c)
      | Inr xs \<Rightarrow> (None, shaped a (b @ xs) c))"
  by (simp add: merge_key_line [where ys = b] shaped_def split: sum.splits)

lemma merge_essay:
  "merge_key ''essay'' result (shaped a b c) =
     (case line_outcome ''essay'' result of
        Inl e \<Rightarrow> (Some e, shaped a b c)
      | Inr xs \<Rightarrow> (None, shaped a b (c @ xs)))"
  by (simp add: merge_key_line [where ys = c] shaped_def split: sum.splits)

lemma merge_results_shaped:
  "snd (merge_results result (shaped a b c)) =
     shaped (a @ added_mcq result) (b @ added_short result) (c @ added_essay result)"
  by (simp add: merge_results_def merge_mcq merge_short merge_essay
      added_mcq_def added_short_def added_essay_def split: sum.splits)

lemma process_batch_unfold:
  "process_batch create loads imgs key cb n i st =
     (let st1 = announce cb n i st;
          req = batch_request imgs i;
          (r, w') = fetch_result create loads key (world st1) req;
          st2 = st1\<lparr>world := w', events := events st1 @ [ModelCall req r]\<rparr>
      in case r of
           Inl e \<Rightarrow> notify cb (BatchError (i div batch_size + 1) e) st2
         | Inr result \<Rightarrow>
             (case merge_results result (all_results st2) of
                (None, d) \<Rightarrow> st2\<lparr>all_results := d\<rparr>
              | (Some e, d) \<Rightarrow>
                  notify cb (BatchError (i div batch_size + 1) e) (st2\<lparr>all_results := d\<rparr>)))"
  by (simp only: process_batch_def announce_def batch_request_def Let_def)

lemma all_results_announce: "all_results (announce cb n i st) = all_results st"
  by (simp add: announce_def all_results_notify)

lemma outcomes_notify: "outcomes (events (notify cb m st)) = outcomes (events st)"
  by (simp add: notify_def outcomes_append split: option.splits)

lemma all_results_process_batch:
  "all_results (process_batch create loads imgs key cb n i st) =
     (case batch_outcome create loads imgs key cb n i st of
        Inl e \<Rightarrow> all_results st
      | Inr result \<Rightarrow> snd (merge_results result (all_results st)))"
  by (simp add: process_batch_unfold batch_outcome_def Let_def all_results_notify
      all_results_announce split: prod.splits sum.splits option.splits)

lemma outcomes_process_batch:
  "outcomes (events (process_batch create loads imgs key cb n i st)) =
     outcomes (events st) @ [batch_outcome create loads imgs key cb n i st]"
  by (simp add: process_batch_unfold batch_outcome_def Let_def outcomes_notify outcomes_append
      announce_def split: prod.splits sum.splits option.splits)

lemma fold_shaped:
  "\<exists>a' b' c'. all_results (fold (process_batch create loads imgs key cb n) idx st) = shaped a' b' c'"
  if "all_results st = shaped a b c"
  using that
proof (induction idx arbitrary: st a b c)
  case Nil
  then show ?case by auto
next
  case (Cons i idx)
  have "\<exists>a' b' c'. all_results (process_batch create loads imgs key cb n i st) = shaped a' b' c'"
    by (auto simp: all_results_process_batch Cons.prems merge_results_shaped split: sum.splits)
  then show ?case using Cons.IH by auto
qed

text \<open>
  Claim C4. Whatever the model answers and however many batches fail, the result is a
  dict with exactly the keys \<^verbatim>\<open>mcq\<close>, \<^verbatim>\<open>short_answer\<close> and \<^verbatim>\<open>essay\<close>, in this order, each
  holding a list.
\<close>

theorem generate_result_shape:
  "\<exists>a b c. all_results (generate_exam_with_groq create loads imgs key cb w) =
     [(''mcq'', JList a), (''short_answer'', JList b), (''essay'', JList c)]"
proof -
  have "all_results \<lparr>all_results = initial_results, world = w, events = []\<rparr> = shaped [] [] []"
    by (simp add: initial_results_def shaped_def)
  from fold_shaped [OF this] show ?thesis
    by (simp add: generate_exam_with_groq_def Let_def shaped_def)
qed

subsection \<open>Merging by concatenation\<close>

lemma line_outcome_obj:
  assumes "list_or_absent kvs k"
  shows "line_outcome k (JObj kvs) = Inr (spec_contribution k (Inr (JObj kvs)))"
proof (cases "map_of kvs k")
  case None
  then have "k \<notin> fst ` set kvs" by (simp add: map_of_eq_None_iff)
  with None show ?thesis
    by (simp add: line_outcome_def spec_contribution_def)
next
  case (Some v)
  then have "k \<in> fst ` set kvs"
    using map_of_eq_None_iff [of kvs k] by auto
  moreover from assms Some obtain xs where "v = JList xs"
    by (cases v) (simp_all add: list_or_absent_def)
  ultimately show ?thesis using Some
    by (simp add: line_outcome_def spec_contribution_def)
qed

lemma line_outcome_other:
  "(\<And>kvs. result \<noteq> JObj kvs) \<Longrightarrow>
   line_outcome k result = Inr [] \<or> (\<exists>e. line_outcome k result = Inl e)"
  by (cases result) (auto simp: line_outcome_def)

lemma added_where_lists:
  assumes "lists_where_present (Inr result)"
  shows "added_mcq result = spec_contribution ''mcq'' (Inr result)"
    and "added_short result = spec_contribution ''short_answer'' (Inr result)"
    and "added_essay result = spec_contribution ''essay'' (Inr result)"
proof -
  show "added_mcq result = spec_contribution ''mcq'' (Inr result)"
  proof (cases "\<exists>kvs. result = JObj kvs")
    case True
    with assms show ?thesis
      by (auto simp: lists_where_present_def added_mcq_def line_outcome_obj)
  next
    case False
    then have "\<And>kvs. result \<noteq> JObj kvs" by simp
    from line_outcome_other [OF this, of "''mcq''"] False show ?thesis
      by (cases result) (auto simp: added_mcq_def spec_contribution_def)
  qed
  show "added_short result = spec_contribution ''short_answer'' (Inr result)"
  proof (cases "\<exists>kvs. result = JObj kvs")
    case True
    with assms show ?thesis
      by (auto simp: lists_where_present_def added_short_def line_outcome_obj)
  next
    case False
    then have *: "\<And>kvs. result \<noteq> JObj kvs" by simp
    from line_outcome_other [OF *, of "''mcq''"] line_outcome_other [OF *, of "''short_answer''"]
      False show ?thesis
      by (cases result) (auto simp: added_short_def spec_contribution_def)
  qed
  show "added_essay result = spec_contribution ''essay'' (Inr result)"
  proof (cases "\<exists>kvs. result = JObj kvs")
    case True
    with assms show ?thesis
      by (auto simp: lists_where_present_def added_essay_def line_outcome_obj)
  next
    case False
    then have *: "\<And>kvs. result \<noteq> JObj kvs" by simp
    from line_outcome_other [OF *, of "''mcq''"] line_outcome_other [OF *, of "''short_answer''"]
      line_outcome_other [OF *, of "''essay''"] False show ?thesis
      by (cases result) (auto simp: added_essay_def spec_contribution_def)
  qed
qed

lemma spec_merged_process_batch:
  "spec_merged k (events (process_batch create loads imgs key cb n i st)) =
     spec_merged k (events st) @ spec_contribution k (batch_outcome create loads imgs key cb n i st)"
  by (simp add: spec_merged_def outcomes_process_batch)

lemma merged_so_far_step:
  assumes "merged_so_far st"
    and "lists_where_present (batch_outcome create loads imgs key cb n i st)"
  shows "merged_so_far (process_batch create loads imgs key cb n i st)"
proof (cases "batch_outcome create loads imgs key cb n i st")
  case (Inl e)
  with assms(1) show ?thesis
    by (simp add: merged_so_far_def all_results_process_batch spec_merged_process_batch
        spec_contribution_def)
next
  case (Inr result)
  with assms(2) have "lists_where_present (Inr result)" by simp
  note added = added_where_lists [OF this]
  from assms(1) Inr show ?thesis
    by (simp add: merged_so_far_def all_results_process_batch spec_merged_process_batch
        merge_results_shaped added)
qed

lemma outcomes_fold_prefix:
  "\<exists>ys. outcomes (events (fold (process_batch create loads imgs key cb n) idx st)) =
     outcomes (events st) @ ys"
proof (induction idx arbitrary: st)
  case Nil
  show ?case by simp
next
  case (Cons i idx)
  from Cons [of "process_batch create loads imgs key cb n i st"]
  show ?case by (auto simp: outcomes_process_batch)
qed

lemma merged_so_far_fold:
  assumes "merged_so_far st"
    and "list_all lists_where_present
           (outcomes (events (fold (process_batch create loads imgs key cb n) idx st)))"
  shows "merged_so_far (fold (process_batch create loads imgs key cb n) idx st)"
  using assms
proof (induction idx arbitrary: st)
  case Nil
  then show ?case by simp
next
  case (Cons i idx)
  let ?st' = "process_batch create loads imgs key cb n i st"
  obtain ys where "outcomes (events (fold (process_batch create loads imgs key cb n) idx ?st')) =
      outcomes (events ?st') @ ys"
    using outcomes_fold_prefix by blast
  with Cons.prems(2) have "list_all lists_where_present (outcomes (events ?st'))"
    by simp
  then have "lists_where_present (batch_outcome create loads imgs key cb n i st)"
    by (simp add: outcomes_process_batch)
  with Cons.prems(1) have "merged_so_far ?st'"
    by (rule merged_so_far_step)
  with Cons.IH [of ?st'] Cons.prems(2) show ?case by simp
qed

lemma merged_so_far_initial:
  "merged_so_far \<lparr>all_results = initial_results, world = w, events = []\<rparr>"
  by (simp add: merged_so_far_def initial_results_def shaped_def spec_merged_def)

text \<open>
  Claim C3, amended. When every successfully parsed response holds a list under each of
  the three keys it has, each of the three returned lists is the concatenation, in batch
  order, of the lists the responses hold under its key, a response without the key
  contributing nothing.
\<close>

theorem generate_concatenates:
  assumes "list_all lists_where_present
             (outcomes (events (generate_exam_with_groq create loads imgs key cb w)))"
  shows "all_results (generate_exam_with_groq create loads imgs key cb w) =
     [(''mcq'', JList (spec_merged ''mcq''
         (events (generate_exam_with_groq create loads imgs key cb w)))),
      (''short_answer'', JList (spec_merged ''short_answer''
         (events (generate_exam_with_groq create loads imgs key cb w)))),
      (''essay'', JList (spec_merged ''essay''
         (events (generate_exam_with_groq create loads imgs key cb w))))]"
proof -
  have "merged_so_far (generate_exam_with_groq create loads imgs key cb w)"
    using assms unfolding generate_exam_with_groq_def Let_def
    by (intro merged_so_far_fold merged_so_far_initial)
  then show ?thesis by (simp add: merged_so_far_def shaped_def)
qed

text \<open>Unfolding the model on a concrete run.\<close>

lemmas model_defs = generate_exam_with_groq_def process_batch_def Let_def notify_def
  fetch_result_def merge_results_def merge_key_def py_slice_def batch_size_def
  initial_results_def py_range.simps

lemmas observer_defs = spec_merged_def spec_contribution_def lists_where_present_def
  list_or_absent_def announce_def batch_request_def batch_outcome_def has_question_def
  questions_in_lists_def

text \<open>
  Claim C3 as stated fails: the response \<^verbatim>\<open>{"mcq": null, "essay": [{"question": "Q"}]}\<close>
  parses, the line for \<^verbatim>\<open>mcq\<close> raises on \<^verbatim>\<open>extend(None)\<close>, and the essay list of the
  response never reaches the result.
\<close>

theorem generate_concatenates_counterexample:
  \<open>map_of (all_results (generate_exam_with_groq
       (reply_create ''{"mcq": null, "essay": [{"question": "Q"}]}'') example_loads
       [''p''] ''k'' None 0)) ''essay''
   \<noteq> Some (JList (spec_merged ''essay'' (events (generate_exam_with_groq
       (reply_create ''{"mcq": null, "essay": [{"question": "Q"}]}'') example_loads
       [''p''] ''k'' None 0))))\<close>
  by (simp add: model_defs observer_defs reply_create_def example_loads_def)

theorem generate_concatenates_witness:
  \<open>list_all lists_where_present (outcomes (events (generate_exam_with_groq
       (reply_create ''{"mcq": [{"question": "Q"}]}'') example_loads [''p''] ''k'' None 0)))
   \<and> all_results (generate_exam_with_groq
       (reply_create ''{"mcq": [{"question": "Q"}]}'') example_loads [''p''] ''k'' None 0) =
     [(''mcq'', JList [JObj [(''question'', JStr ''Q'')]]), (''short_answer'', JList []),
      (''essay'', JList [])]\<close>
proof -
  have h: \<open>list_all lists_where_present (outcomes (events (generate_exam_with_groq
       (reply_create ''{"mcq": [{"question": "Q"}]}'') example_loads [''p''] ''k'' None 0)))\<close>
    by (simp add: model_defs observer_defs reply_create_def example_loads_def)
  from generate_concatenates [OF h] h show ?thesis
    by (simp add: model_defs observer_defs reply_create_def example_loads_def)
qed

section \<open>Failed batches\<close>



section \<open>Question fields\<close>

lemma list_all_spec_merged:
  "list_all questions_in_lists outs \<Longrightarrow>
   list_all has_question (concat (map (spec_contribution k) outs))" if "k \<in> {''mcq'', ''short_answer'', ''essay''}"
  using that by (induction outs) (auto simp: questions_in_lists_def)

lemma questions_imp_lists:
  "list_all questions_in_lists outs \<Longrightarrow> list_all lists_where_present outs"
  by (induction outs) (auto simp: questions_in_lists_def)

text \<open>
  Claim C5, amended. The generator does not check the items it merges: an item of the
  three returned lists has a \<^verbatim>\<open>question\<close> field when the responses gave it one. When
  every successfully parsed response holds, under each of the three keys it has, a list of
  items with a \<^verbatim>\<open>question\<close> field, so does the result.
\<close>

theorem generate_keeps_questions:
  assumes "list_all questions_in_lists
             (outcomes (events (generate_exam_with_groq create loads imgs key cb w)))"
  shows "list_all has_question
           (items_of (all_results (generate_exam_with_groq create loads imgs key cb w)) ''mcq'')
    \<and> list_all has_question
           (items_of (all_results (generate_exam_with_groq create loads imgs key cb w)) ''short_answer'')
    \<and> list_all has_question
           (items_of (all_results (generate_exam_with_groq create loads imgs key cb w)) ''essay'')"
proof -
  let ?R = "generate_exam_with_groq create loads imgs key cb w"
  have "list_all lists_where_present (outcomes (events ?R))"
    using assms by (rule questions_imp_lists)
  then have "merged_so_far ?R"
    unfolding generate_exam_with_groq_def Let_def
    by (intro merged_so_far_fold merged_so_far_initial)
  then have "items_of (all_results ?R) ''mcq'' = spec_merged ''mcq'' (events ?R)"
    "items_of (all_results ?R) ''short_answer'' = spec_merged ''short_answer'' (events ?R)"
    "items_of (all_results ?R) ''essay'' = spec_merged ''essay'' (events ?R)"
    by (simp_all add: merged_so_far_def shaped_def items_of_def)
  with assms show ?thesis
    by (simp add: spec_merged_def list_all_spec_merged)
qed

text \<open>
  Claim C5 as stated fails: the response \<^verbatim>\<open>{"mcq": [{}]}\<close> puts an item without a
  \<^verbatim>\<open>question\<close> field into the result.
\<close>

theorem generate_keeps_questions_counterexample:
  \<open>\<not> list_all has_question (items_of (all_results (generate_exam_with_groq
       (reply_create ''{"mcq": [{}]}'') example_loads [''p''] ''k'' None 0)) ''mcq'')\<close>
  by (simp add: model_defs observer_defs reply_create_def example_loads_def items_of_def)

theorem generate_keeps_questions_witness:
  \<open>list_all questions_in_lists (outcomes (events (generate_exam_with_groq
       (reply_create ''{"mcq": [{"question": "Q"}]}'') example_loads [''p''] ''k'' None 0)))
   \<and> list_all has_question (items_of (all_results (generate_exam_with_groq
       (reply_create ''{"mcq": [{"question": "Q"}]}'') example_loads [''p''] ''k'' None 0)) ''mcq'')\<close>
proof -
  have h: \<open>list_all questions_in_lists (outcomes (events (generate_exam_with_groq
       (reply_create ''{"mcq": [{"question": "Q"}]}'') example_loads [''p''] ''k'' None 0)))\<close>
    by (simp add: model_defs observer_defs reply_create_def example_loads_def)
  from generate_keeps_questions [OF h] h show ?thesis by simp
qed

section \<open>Rendering and extraction\<close>

lemma fold_append_map: "fold (\<lambda>x acc. acc @ [f x]) xs acc = acc @ map f xs"
  by (induction xs arbitrary: acc) simp_all

lemma py_range_one: "py_range 0 n (Suc 0) = [0 ..< n]"
  using py_range_closed [of "Suc 0" 0 n] by (simp add: map_idI)

text \<open>
  Claim C6. For a document of \<open>n\<close> pages the result has exactly \<open>n\<close> elements, and the
  element at index \<open>k\<close> is the base64 encoding of the PNG bytes of the pixmap of page \<open>k\<close>:
  every page is rendered, in document order.
\<close>

theorem convert_renders_every_page:
  "convert_pdf_to_images lib b64encode pdf_path =
     map (\<lambda>k. b64encode (tobytes lib (get_pixmap lib (load_page lib (fitz_open lib pdf_path) k)) ''png''))
       [0 ..< page_count lib (fitz_open lib pdf_path)]
   \<and> length (convert_pdf_to_images lib b64encode pdf_path) = page_count lib (fitz_open lib pdf_path)"
  by (simp add: convert_pdf_to_images_def Let_def py_range_one fold_append_map)

lemma extract_fold:
  "fold (\<lambda>page text.
             (case extract_text page of
                None \<Rightarrow> text
              | Some page_text \<Rightarrow> if page_text \<noteq> [] then text @ page_text else text))
       pages acc =
   acc @ concat (map (\<lambda>page. case extract_text page of None \<Rightarrow> [] | Some t \<Rightarrow> t) pages)"
  by (induction pages arbitrary: acc) (auto split: option.splits)

text \<open>
  Claim C10. The extracted text is the concatenation, in page order and with nothing
  between them, of the texts of the pages that yield a non-empty string; a page that
  yields \<^verbatim>\<open>None\<close> or the empty string adds nothing, so a document whose pages all yield
  no text gives the empty string.
\<close>

theorem extract_concatenates_pages:
  "extract_document_text extract_text pages =
     concat (map (\<lambda>page. the (extract_text page))
       (filter (\<lambda>page. extract_text page \<noteq> None \<and> extract_text page \<noteq> Some []) pages))
   \<and> (list_all (\<lambda>page. extract_text page = None \<or> extract_text page = Some []) pages
        \<longrightarrow> extract_document_text extract_text pages = [])"
proof -
  have "concat (map (\<lambda>page. case extract_text page of None \<Rightarrow> [] | Some t \<Rightarrow> t) pages) =
        concat (map (\<lambda>page. the (extract_text page))
         (filter (\<lambda>page. extract_text page \<noteq> None \<and> extract_text page \<noteq> Some []) pages))"
    by (induction pages) (auto split: option.splits)
  moreover have "list_all (\<lambda>page. extract_text page = None \<or> extract_text page = Some []) pages
      \<Longrightarrow> concat (map (\<lambda>page. case extract_text page of None \<Rightarrow> [] | Some t \<Rightarrow> t) pages) = []"
    by (induction pages) (auto split: option.splits)
  ultimately show ?thesis
    by (simp add: extract_document_text_def extract_fold)
qed

theorem extract_concatenates_pages_witness:
  "list_all (\<lambda>page. (if page = (0::nat) then None else Some []) = None
                   \<or> (if page = 0 then None else Some []) = Some []) [0, 1, 0]
   \<and> extract_document_text (\<lambda>page. if page = (0::nat) then None else Some []) [0, 1, 0] = []
   \<and> extract_document_text (\<lambda>page. if page = (0::nat) then None else Some ''ab'') [1, 0, 1] = ''abab''"
  using extract_concatenates_pages [of "\<lambda>page. if page = (0::nat) then None else Some []" "[0, 1, 0]"]
    extract_concatenates_pages [of "\<lambda>page. if page = (0::nat) then None else Some ''ab''" "[1, 0, 1]"]
  by simp

section \<open>Report and display on items with missing fields\<close>















section \<open>Objects a call leaves unchanged\<close>



lemma cell_at_new_Suc: "cell_at (h @ c # cs) (Suc (length h + k)) = cell_at cs k"
  by (simp add: cell_at_def nth_append)






























end
